theory Spec2Isabelle
  imports Main "HOL-Library.Word"
begin

section \<open>The EKS turndown provider (pkg/turndown/provider/eksprovider.go)\<close>

text \<open>
  The provider shrinks the node pools of a cluster and remembers their former capacity in
  a tag, and later restores them from that tag. The theory embeds the capacity codec
  (\<open>flatRange\<close>, \<open>expandRange\<close>) and the two batch operations (\<open>SetNodePoolSizes\<close>,
  \<open>ResetNodePoolSizes\<close>) of \<open>EKSProvider\<close>.

  Go's \<open>int32\<close> is a 32-bit word. Go's \<open>int\<close> is taken at 64 bits (\<open>strconv.IntSize = 64\<close>),
  its width on the amd64 and arm64 platforms. Strings are byte lists, as in Go.
  The source's variables \<open>min\<close>, \<open>max\<close> and \<open>size\<close> are written \<open>mn\<close>, \<open>mx\<close> and \<open>sz\<close>,
  since HOL has constants of those names. The calls of the logger \<open>p.log\<close> have no effect on
  what the functions return nor on what they ask of the cluster provider, and are left out.
\<close>

type_synonym int32 = "32 word"
type_synonym go_int = "64 word"

subsection \<open>The standard library functions the codec calls\<close>

text \<open>
  \<open>fmt.Sprintf("%d", n)\<close> for a signed integer: a minus sign for a negative number, then
  the decimal digits of the magnitude, most significant first, with no leading zero.
\<close>

definition digitChar :: "nat \<Rightarrow> char" where
  "digitChar d = ''0123456789'' ! d"

fun natDigits :: "nat \<Rightarrow> string" where
  "natDigits n = (if n < 10 then [digitChar n] else natDigits (n div 10) @ [digitChar (n mod 10)])"

declare natDigits.simps [simp del]

definition formatInt :: "int \<Rightarrow> string" where
  "formatInt i = (if i < 0 then CHR ''-'' # natDigits (nat (- i)) else natDigits (nat i))"

text \<open>
  \<open>strings.Split(s, sep)\<close> for a separator of one byte: the pieces of \<open>s\<close> between the
  occurrences of the separator, so one piece more than there are separators; the empty
  string gives one empty piece.
\<close>

fun Split :: "string \<Rightarrow> char \<Rightarrow> string list" where
  "Split [] sep = [[]]"
| "Split (c # cs) sep =
     (if c = sep then [] # Split cs sep
      else (case Split cs sep of [] \<Rightarrow> [[c]] | w # ws \<Rightarrow> (c # w) # ws))"

text \<open>
  \<open>strconv.Atoi(s)\<close> gives the same value and fails on the same strings as
  \<open>strconv.ParseInt(s, 10, 0)\<close>: an optional sign \<open>+\<close> or \<open>-\<close>, then
  \<open>strconv.ParseUint\<close> on the rest, which reads decimal digits from the left into an
  unsigned 64-bit accumulator and stops with \<open>ErrSyntax\<close> at the first byte that is not a
  digit (or on an empty string), and with \<open>ErrRange\<close> as soon as the accumulator
  overflows; then the magnitude is checked against the range of \<open>int\<close>.
\<close>

datatype NumError = ErrSyntax | ErrRange

definition intSize :: nat where
  "intSize = 64"

definition digitVal :: "char \<Rightarrow> int option" where
  "digitVal c =
     (if CHR ''0'' = c then Some 0 else if CHR ''1'' = c then Some 1
      else if CHR ''2'' = c then Some 2 else if CHR ''3'' = c then Some 3
      else if CHR ''4'' = c then Some 4 else if CHR ''5'' = c then Some 5
      else if CHR ''6'' = c then Some 6 else if CHR ''7'' = c then Some 7
      else if CHR ''8'' = c then Some 8 else if CHR ''9'' = c then Some 9
      else None)"

definition maxUint64 :: int where
  "maxUint64 = 2 ^ 64 - 1"

text \<open>
  The digit loop of \<open>ParseUint\<close> for base 10 and bit size 64, with accumulator \<open>n\<close>. The
  accumulator is a \<open>uint64\<close> in Go; here it is a mathematical integer, and the two overflow
  tests of the loop (\<open>n >= cutoff\<close> before the multiplication, \<open>n1 < n || n1 > maxVal\<close> after
  the addition) are written on the exact values: below the cutoff \<open>n * 10\<close> does not wrap, and
  the sum wraps or exceeds \<open>maxVal\<close> exactly when the exact sum exceeds \<open>maxVal\<close>.
\<close>

fun parseDigits :: "int \<Rightarrow> string \<Rightarrow> NumError + int" where
  "parseDigits n [] = Inr n"
| "parseDigits n (c # cs) =
     (case digitVal c of
        None \<Rightarrow> Inl ErrSyntax
      | Some d \<Rightarrow>
          if n \<ge> maxUint64 div 10 + 1 then Inl ErrRange
          else if n * 10 + d > 2 ^ intSize - 1 then Inl ErrRange
          else parseDigits (n * 10 + d) cs)"

definition ParseUint :: "string \<Rightarrow> NumError + int" where
  "ParseUint s = (if s = [] then Inl ErrSyntax else parseDigits 0 s)"

definition ParseInt :: "string \<Rightarrow> NumError + int" where
  "ParseInt s =
     (if s = [] then Inl ErrSyntax
      else
        let neg = (hd s = CHR ''-'');
            s1 = (if hd s = CHR ''+'' \<or> hd s = CHR ''-'' then tl s else s)
        in case ParseUint s1 of
             Inl err \<Rightarrow> Inl err
           | Inr un \<Rightarrow>
               if \<not> neg \<and> un \<ge> 2 ^ (intSize - 1) then Inl ErrRange
               else if neg \<and> un > 2 ^ (intSize - 1) then Inl ErrRange
               else Inr (if neg then - un else un))"

definition Atoi :: "string \<Rightarrow> NumError + go_int" where
  "Atoi s = (case ParseInt s of Inl err \<Rightarrow> Inl err | Inr i \<Rightarrow> Inr (word_of_int i))"

subsection \<open>The capacity codec\<close>

text \<open>
  \<open>flatRange\<close> is \<open>fmt.Sprintf("%d/%d/%d", min, max, count)\<close> on three \<open>int32\<close>.
\<close>

definition flatRange :: "int32 \<Rightarrow> int32 \<Rightarrow> int32 \<Rightarrow> string" where
  "flatRange mn mx count =
     formatInt (sint mn) @ ''/'' @ formatInt (sint mx) @ ''/'' @ formatInt (sint count)"

text \<open>
  Indexing a slice beyond its length is a run-time panic in Go; the panic carries the index
  and the length.
\<close>

datatype Panic = IndexOutOfRange nat nat

definition index :: "'a list \<Rightarrow> nat \<Rightarrow> Panic + 'a" where
  "index xs i = (if i < length xs then Inr (xs ! i) else Inl (IndexOutOfRange i (length xs)))"

text \<open>
  \<open>expandRange\<close> reads \<open>values[2]\<close> first, then \<open>values[0]\<close> and \<open>values[1]\<close>; the
  conversions \<open>int32(...)\<close> of the last line keep the low 32 bits.
\<close>

definition expandRange :: "string \<Rightarrow> Panic + (int32 \<times> int32 \<times> int32)" where
  "expandRange s =
     (let values = Split s CHR ''/'' in
      case index values 2 of
        Inl pnc \<Rightarrow> Inl pnc
      | Inr v2 \<Rightarrow>
          (case Atoi v2 of
             Inl err \<Rightarrow> Inr (- 1, - 1, - 1)
           | Inr count \<Rightarrow>
               (case index values 0 of
                  Inl pnc \<Rightarrow> Inl pnc
                | Inr v0 \<Rightarrow>
                    let mn = (case Atoi v0 of Inl err \<Rightarrow> count | Inr m \<Rightarrow> m) in
                    (case index values 1 of
                       Inl pnc \<Rightarrow> Inl pnc
                     | Inr v1 \<Rightarrow>
                         let mx = (case Atoi v1 of Inl err \<Rightarrow> count | Inr m \<Rightarrow> m) in
                         Inr (ucast mn, ucast mx, ucast count)))))"

subsection \<open>Node pools and the cluster provider\<close>

text \<open>
  A \<open>cp.NodePool\<close> is the value the cluster provider hands out; its methods
  \<open>Name()\<close>, \<open>MinNodes()\<close>, \<open>MaxNodes()\<close>, \<open>NodeCount()\<close> and \<open>Tags()\<close> read it.
\<close>

record NodePool =
  Name :: string
  MinNodes :: int32
  MaxNodes :: int32
  NodeCount :: int32
  Tags :: "string \<rightharpoonup> string"

type_synonym go_error = string

text \<open>
  The three operations of \<open>cp.ClusterProvider\<close> that the batch operations call. The
  provider is outside this file: each operation is any function that takes the state of the
  cluster to a new one and returns \<open>nil\<close> (\<open>None\<close>) or an error. The context argument,
  created once per batch and passed to every call, carries nothing the batch operations
  read; a cancelled context shows as an error of the provider.
\<close>

record 's ClusterProvider =
  UpdateNodePoolSize :: "NodePool \<Rightarrow> int32 \<Rightarrow> 's \<Rightarrow> go_error option \<times> 's"
  CreateOrUpdateTags :: "NodePool \<Rightarrow> bool \<Rightarrow> (string \<rightharpoonup> string) \<Rightarrow> 's \<Rightarrow> go_error option \<times> 's"
  DeleteTags :: "NodePool \<Rightarrow> string list \<Rightarrow> 's \<Rightarrow> go_error option \<times> 's"

definition EKSNodeGroupPreviousKey :: string where
  "EKSNodeGroupPreviousKey = ''cluster.turndown.previous''"

subsection \<open>SetNodePoolSizes\<close>

text \<open>The \<open>for\<close> loop of \<open>SetNodePoolSizes\<close>; a \<open>return err\<close> leaves it at once.\<close>

fun SetNodePoolSizes_loop ::
  "'s ClusterProvider \<Rightarrow> NodePool list \<Rightarrow> int32 \<Rightarrow> 's \<Rightarrow> go_error option \<times> 's" where
  "SetNodePoolSizes_loop p [] sz s = (None, s)"
| "SetNodePoolSizes_loop p (np # nodePools) sz s =
     (let mn = MinNodes np; mx = MaxNodes np; count = NodeCount np;
          rng = flatRange mn mx count
      in case UpdateNodePoolSize p np sz s of
           (Some err, s1) \<Rightarrow> (Some err, s1)
         | (None, s1) \<Rightarrow>
             (case CreateOrUpdateTags p np False [EKSNodeGroupPreviousKey \<mapsto> rng] s1 of
                (Some err, s2) \<Rightarrow> (Some err, s2)
              | (None, s2) \<Rightarrow> SetNodePoolSizes_loop p nodePools sz s2))"

definition SetNodePoolSizes ::
  "'s ClusterProvider \<Rightarrow> NodePool list \<Rightarrow> int32 \<Rightarrow> 's \<Rightarrow> go_error option \<times> 's" where
  "SetNodePoolSizes p nodePools sz s =
     (if length nodePools = 0 then (None, s) else SetNodePoolSizes_loop p nodePools sz s)"

subsection \<open>ResetNodePoolSizes\<close>

text \<open>
  \<open>ResetNodePoolSizes\<close> calls \<open>expandRange\<close>, so it ends with a returned error value or
  with the panic of \<open>expandRange\<close>. Each \<open>continue\<close> goes on with the rest of the list.
\<close>

datatype Outcome = Panicked Panic | Returned "go_error option"

fun ResetNodePoolSizes_loop ::
  "'s ClusterProvider \<Rightarrow> NodePool list \<Rightarrow> 's \<Rightarrow> Outcome \<times> 's" where
  "ResetNodePoolSizes_loop p [] s = (Returned None, s)"
| "ResetNodePoolSizes_loop p (np # nodePools) s =
     (let tags = Tags np in
      case tags EKSNodeGroupPreviousKey of
        None \<Rightarrow> ResetNodePoolSizes_loop p nodePools s
      | Some rangeTag \<Rightarrow>
          (case expandRange rangeTag of
             Inl pnc \<Rightarrow> (Panicked pnc, s)
           | Inr (mn, mx, count) \<Rightarrow>
               if count <s 0 then ResetNodePoolSizes_loop p nodePools s
               else
                 (case UpdateNodePoolSize p np count s of
                    (Some err, s1) \<Rightarrow> (Returned (Some err), s1)
                  | (None, s1) \<Rightarrow>
                      (case DeleteTags p np [EKSNodeGroupPreviousKey] s1 of
                         (Some err, s2) \<Rightarrow> (Returned (Some err), s2)
                       | (None, s2) \<Rightarrow> ResetNodePoolSizes_loop p nodePools s2))))"

definition ResetNodePoolSizes ::
  "'s ClusterProvider \<Rightarrow> NodePool list \<Rightarrow> 's \<Rightarrow> Outcome \<times> 's" where
  "ResetNodePoolSizes p nodePools s =
     (if length nodePools = 0 then (Returned None, s) else ResetNodePoolSizes_loop p nodePools s)"

subsection \<open>Observing the calls made to the cluster provider\<close>

text \<open>
  To state which calls a batch operation makes, and in which order, a provider is wrapped
  into one that behaves the same and appends every call it receives, with its arguments,
  to a list kept beside the state of the cluster.
\<close>

datatype Call =
    UpdateNodePoolSizeCall NodePool int32
  | CreateOrUpdateTagsCall NodePool bool "string \<rightharpoonup> string"
  | DeleteTagsCall NodePool "string list"

definition recording :: "'s ClusterProvider \<Rightarrow> ('s \<times> Call list) ClusterProvider" where
  "recording p =
     \<lparr> UpdateNodePoolSize = (\<lambda>np sz. \<lambda>(s, calls).
         case UpdateNodePoolSize p np sz s of
           (r, s') \<Rightarrow> (r, (s', calls @ [UpdateNodePoolSizeCall np sz]))),
       CreateOrUpdateTags = (\<lambda>np overwrite tags. \<lambda>(s, calls).
         case CreateOrUpdateTags p np overwrite tags s of
           (r, s') \<Rightarrow> (r, (s', calls @ [CreateOrUpdateTagsCall np overwrite tags]))),
       DeleteTags = (\<lambda>np keys. \<lambda>(s, calls).
         case DeleteTags p np keys s of
           (r, s') \<Rightarrow> (r, (s', calls @ [DeleteTagsCall np keys]))) \<rparr>"

text \<open>
  The calls \<open>SetNodePoolSizes\<close> is to make for one pool, in order: the resize to the target
  size, then the write of the marker, computed from the pool's own min, max and count,
  under the key \<open>cluster.turndown.previous\<close> with \<open>overwrite = false\<close>.
\<close>

definition SetNodePoolSizes_calls :: "int32 \<Rightarrow> NodePool \<Rightarrow> Call list" where
  "SetNodePoolSizes_calls sz np =
     [UpdateNodePoolSizeCall np sz,
      CreateOrUpdateTagsCall np False
        [EKSNodeGroupPreviousKey \<mapsto> flatRange (MinNodes np) (MaxNodes np) (NodeCount np)]]"

text \<open>
  A provider for running the batch operations on concrete pools: its state counts the calls
  it has served; resizing the pool named \<open>badResize\<close> fails, and so does writing or
  deleting tags of the pool named \<open>badTags\<close>.
\<close>

definition stubProvider :: "string \<Rightarrow> string \<Rightarrow> nat ClusterProvider" where
  "stubProvider badResize badTags =
     \<lparr> UpdateNodePoolSize = (\<lambda>np sz n.
         (if Name np = badResize then Some ''resize refused'' else None, Suc n)),
       CreateOrUpdateTags = (\<lambda>np overwrite tags n.
         (if Name np = badTags then Some ''tagging refused'' else None, Suc n)),
       DeleteTags = (\<lambda>np keys n.
         (if Name np = badTags then Some ''untagging refused'' else None, Suc n)) \<rparr>"

definition pool :: "string \<Rightarrow> (string \<rightharpoonup> string) \<Rightarrow> NodePool" where
  "pool nm tags = \<lparr> Name = nm, MinNodes = 1, MaxNodes = 5, NodeCount = 2, Tags = tags \<rparr>"

section \<open>The capacity codec: properties\<close>

subsection \<open>Formatting and parsing decimal numbers\<close>

lemma digitVal_digitChar: "d < 10 \<Longrightarrow> digitVal (digitChar d) = Some (int d)"
proof -
  assume "d < 10"
  then have "d \<in> {0, 1, 2, 3, 4, 5, 6, 7, 8, 9}" by auto
  then show ?thesis
    by (auto simp: digitVal_def digitChar_def)
qed

lemma digitChar_in: "d < 10 \<Longrightarrow> digitChar d \<in> set ''0123456789''"
  unfolding digitChar_def by (rule nth_mem) simp

lemma natDigits_set: "set (natDigits n) \<subseteq> set ''0123456789''"
proof (induction n rule: natDigits.induct)
  case (1 n)
  show ?case
  proof (cases "n < 10")
    case True
    then show ?thesis using digitChar_in [of n] by (subst natDigits.simps) simp
  next
    case False
    have "n mod 10 < 10" by simp
    then have "digitChar (n mod 10) \<in> set ''0123456789''" by (rule digitChar_in)
    with False 1 show ?thesis by (subst natDigits.simps) simp
  qed
qed

lemma natDigits_nonempty: "natDigits n \<noteq> []"
  by (subst natDigits.simps) simp

lemma hd_natDigits: "hd (natDigits n) \<noteq> CHR ''-'' \<and> hd (natDigits n) \<noteq> CHR ''+''"
proof -
  have "hd (natDigits n) \<in> set (natDigits n)"
    by (rule hd_in_set) (rule natDigits_nonempty)
  with natDigits_set [of n] have "hd (natDigits n) \<in> set ''0123456789''" by blast
  then show ?thesis by auto
qed

lemma slash_notin_natDigits: "CHR ''/'' \<notin> set (natDigits n)"
  using natDigits_set [of n] by auto

lemma slash_notin_formatInt: "CHR ''/'' \<notin> set (formatInt i)"
  by (simp add: formatInt_def slash_notin_natDigits)

text \<open>The digit loop reads a string in two parts as it reads the whole.\<close>

lemma parseDigits_append:
  "parseDigits n (xs @ ys) =
     (case parseDigits n xs of Inl e \<Rightarrow> Inl e | Inr v \<Rightarrow> parseDigits v ys)"
  by (induction xs arbitrary: n) (auto split: option.splits)

lemma parseDigits_natDigits:
  "n < 2 ^ 63 \<Longrightarrow> parseDigits 0 (natDigits n) = Inr (int n)"
proof (induction n rule: natDigits.induct)
  case (1 n)
  show ?case
  proof (cases "n < 10")
    case True
    then show ?thesis
      by (subst natDigits.simps) (simp add: digitVal_digitChar maxUint64_def intSize_def)
  next
    case False
    have lt: "n div 10 < 2 ^ 63" using 1(2) by simp
    have ih: "parseDigits 0 (natDigits (n div 10)) = Inr (int (n div 10))"
      using 1(1) [OF False lt] .
    have d: "digitVal (digitChar (n mod 10)) = Some (int (n mod 10))"
      by (rule digitVal_digitChar) simp
    have e: "int (n div 10) * 10 + int (n mod 10) = int n"
      by (simp add: zdiv_int zmod_int)
    have b: "int n < 2 ^ 63"
      using 1(2) by (metis of_nat_less_iff of_nat_numeral of_nat_power)
    have "parseDigits (int (n div 10)) [digitChar (n mod 10)] = Inr (int n)"
      using b e d by (simp add: maxUint64_def intSize_def)
    with ih False show ?thesis
      by (subst natDigits.simps) (simp add: parseDigits_append)
  qed
qed

lemma ParseUint_natDigits: "n < 2 ^ 63 \<Longrightarrow> ParseUint (natDigits n) = Inr (int n)"
  by (simp add: ParseUint_def natDigits_nonempty parseDigits_natDigits)

lemma ParseInt_formatInt:
  assumes "- (2 ^ 63) < i" and "i < 2 ^ 63"
  shows "ParseInt (formatInt i) = Inr i"
proof (cases "i < 0")
  case True
  have "nat (- i) < 2 ^ 63" using assms True by (simp add: nat_less_iff)
  then have "ParseUint (natDigits (nat (- i))) = Inr (int (nat (- i)))"
    by (rule ParseUint_natDigits)
  with True assms show ?thesis
    by (simp add: ParseInt_def formatInt_def intSize_def)
next
  case False
  have "nat i < 2 ^ 63" using assms False by (simp add: nat_less_iff)
  then have "ParseUint (natDigits (nat i)) = Inr (int (nat i))"
    by (rule ParseUint_natDigits)
  with False assms show ?thesis
    by (simp add: ParseInt_def formatInt_def intSize_def natDigits_nonempty hd_natDigits)
qed

lemma Atoi_formatInt_int32: "Atoi (formatInt (sint (w :: int32))) = Inr (scast w)"
proof -
  have "- (2 ^ 31) \<le> sint w" "sint w < 2 ^ 31"
    using sint_ge [of w] sint_lt [of w] by simp_all
  then have "ParseInt (formatInt (sint w)) = Inr (sint w)"
    by (intro ParseInt_formatInt) simp_all
  then show ?thesis by (simp add: Atoi_def)
qed

text \<open>An \<open>int32\<close> widened to \<open>int\<close> and converted back is unchanged.\<close>

lemma int32_of_int_sint: "(ucast (scast (w :: int32) :: go_int) :: int32) = w"
  by (rule bit_word_eqI) (auto simp add: bit_ucast_iff bit_word_scast_iff)

subsection \<open>Splitting\<close>

lemma Split_no_sep: "sep \<notin> set a \<Longrightarrow> Split a sep = [a]"
  by (induction a) auto

lemma Split_first: "sep \<notin> set a \<Longrightarrow> Split (a @ sep # rest) sep = a # Split rest sep"
  by (induction a) auto

lemma Split_three:
  assumes "sep \<notin> set a" "sep \<notin> set b" "sep \<notin> set c"
  shows "Split (a @ [sep] @ b @ [sep] @ c) sep = [a, b, c]"
  using assms by (simp add: Split_first Split_no_sep)

text \<open>The conversion \<open>int32(n)\<close> of an \<open>int\<close> keeps its value modulo \<open>2 ^ 32\<close>.\<close>

lemma uint_int32_of_int: "uint (ucast (n :: go_int) :: int32) = uint n mod 2 ^ 32"
  by (simp add: unsigned_ucast_eq take_bit_eq_mod)

lemma uint_int32_of_word_of_int: "uint (word_of_int i :: int32) = i mod 2 ^ 32"
  by (simp add: uint_word_of_int)

lemma ucast_word_of_int_64_32: "(ucast (word_of_int i :: go_int) :: int32) = word_of_int i"
  by (rule bit_word_eqI) (auto simp add: bit_ucast_iff bit_word_of_int_iff)

lemma Atoi_zero: "Atoi ''0'' = Inr 0"
  by (simp add: Atoi_def ParseInt_def ParseUint_def digitVal_def intSize_def maxUint64_def)

lemmas codec_eval = expandRange_def index_def Atoi_def ParseInt_def ParseUint_def digitVal_def
  intSize_def maxUint64_def

text \<open>Decoding an encoded triple; shared by the claims on the codec and on the restore.\<close>

lemma decode_encode: "expandRange (flatRange mn mx count) = Inr (mn, mx, count)"
proof -
  have "Split (flatRange mn mx count) CHR ''/'' =
      [formatInt (sint mn), formatInt (sint mx), formatInt (sint count)]"
    unfolding flatRange_def by (rule Split_three) (rule slash_notin_formatInt)+
  then show ?thesis
    by (simp add: expandRange_def index_def Atoi_formatInt_int32 int32_of_int_sint)
qed

subsection \<open>Claims about the codec\<close>

text \<open>
  Claim C1 says that \<open>expandRange\<close> returns a triple on every string and that
  \<open>"garbage"\<close> gives \<open>(-1, -1, -1)\<close>. The code does not: \<open>"garbage"\<close> splits into one
  field, and reading \<open>values[2]\<close> panics with an index out of range before anything is
  parsed.
\<close>

theorem expandRange_garbage_panics:
  "expandRange ''garbage'' = Inl (IndexOutOfRange 2 1)"
  by (simp add: expandRange_def index_def)

text \<open>
  Claim C2: decoding the encoding of any three \<open>int32\<close> values, zero and negative ones
  included, gives back exactly these values.
\<close>

theorem expandRange_flatRange:
  "expandRange (flatRange mn mx count) = Inr (mn, mx, count)"
  by (rule decode_encode)

text \<open>
  Claim C3: on an input of three fields, a count field that does not parse gives
  \<open>(-1, -1, -1)\<close> whatever the other fields are; when the count parses, a min or max
  field that does not parse takes the value of the count, each on its own, and a field that
  parses is kept. In particular \<open>"/50/3"\<close> decodes to \<open>(3, 50, 3)\<close>.
\<close>

theorem expandRange_fallback:
  assumes "Split s CHR ''/'' = [f0, f1, f2]"
  shows "(\<forall>e. Atoi f2 = Inl e \<longrightarrow> expandRange s = Inr (- 1, - 1, - 1))
    \<and> (\<forall>count. Atoi f2 = Inr count \<longrightarrow>
          expandRange s =
            Inr (ucast (case Atoi f0 of Inl e \<Rightarrow> count | Inr m \<Rightarrow> m),
                 ucast (case Atoi f1 of Inl e \<Rightarrow> count | Inr m \<Rightarrow> m),
                 ucast count))
    \<and> (\<forall>count e m. Atoi f2 = Inr count \<and> Atoi f0 = Inl e \<and> Atoi f1 = Inr m \<longrightarrow>
          expandRange s = Inr (ucast count, ucast m, ucast count))
    \<and> (\<forall>count e m. Atoi f2 = Inr count \<and> Atoi f0 = Inr m \<and> Atoi f1 = Inl e \<longrightarrow>
          expandRange s = Inr (ucast m, ucast count, ucast count))
    \<and> expandRange ''/50/3'' = Inr (3, 50, 3)"
proof -
  have ex: "expandRange ''/50/3'' = Inr (3, 50, 3)"
    by (simp add: codec_eval)
  show ?thesis
    using assms ex by (simp add: expandRange_def index_def)
qed

theorem expandRange_fallback_witness:
  "Split ''1/2/x'' CHR ''/'' = [''1'', ''2'', ''x''] \<and> Atoi ''x'' = Inl ErrSyntax
   \<and> expandRange ''1/2/x'' = Inr (- 1, - 1, - 1)
   \<and> Split ''/50/3'' CHR ''/'' = ['''', ''50'', ''3''] \<and> Atoi ''3'' = Inr 3
   \<and> Atoi '''' = Inl ErrSyntax \<and> Atoi ''50'' = Inr 50
   \<and> expandRange ''/50/3'' = Inr (3, 50, 3)
   \<and> Split ''10/x/3'' CHR ''/'' = [''10'', ''x'', ''3''] \<and> Atoi ''10'' = Inr 10
   \<and> expandRange ''10/x/3'' = Inr (10, 3, 3)"
proof -
  have s1: "Split ''1/2/x'' CHR ''/'' = [''1'', ''2'', ''x'']" by simp
  have s2: "Split ''/50/3'' CHR ''/'' = ['''', ''50'', ''3'']" by simp
  have s3: "Split ''10/x/3'' CHR ''/'' = [''10'', ''x'', ''3'']" by simp
  have a: "Atoi ''x'' = Inl ErrSyntax" "Atoi ''3'' = Inr 3" "Atoi '''' = Inl ErrSyntax"
    "Atoi ''50'' = Inr 50" "Atoi ''10'' = Inr 10"
    by (simp_all add: Atoi_def ParseInt_def ParseUint_def digitVal_def intSize_def maxUint64_def)
  show ?thesis
    using s1 s2 s3 a expandRange_fallback [OF s1] expandRange_fallback [OF s2]
      expandRange_fallback [OF s3]
    by simp
qed

text \<open>
  Claim C9: \<open>expandRange\<close> does not hold the count to 32 bits. Whenever the input has at
  least three fields and \<open>Atoi\<close> parses the count field to the \<open>int\<close> \<open>n\<close>, the count
  returned is \<open>int32(n)\<close>, the value of \<open>n\<close> modulo \<open>2 ^ 32\<close>. Every decimal number from
  \<open>2 ^ 31\<close> up to \<open>2 ^ 63 - 1\<close>, which is outside the range of \<open>int32\<close>, is parsed by
  \<open>Atoi\<close>, and as the count field of \<open>"0/0/..."\<close> it is decoded to its residue modulo
  \<open>2 ^ 32\<close> and not answered with the sentinel. So \<open>"0/0/4294967296"\<close> decodes to count 0
  and \<open>"7/9/4294967301"\<close> to \<open>(7, 9, 5)\<close>.
\<close>

theorem expandRange_wide_count_truncated:
  "(Split s CHR ''/'' = f0 # f1 # f2 # fs \<and> Atoi f2 = Inr n
     \<longrightarrow> (\<exists>mn mx. expandRange s = Inr (mn, mx, ucast n))
         \<and> uint (ucast n :: int32) = uint n mod 2 ^ 32)
   \<and> (2 ^ 31 \<le> i \<and> i < 2 ^ 63
     \<longrightarrow> Atoi (formatInt i) = Inr (word_of_int i)
         \<and> expandRange (''0/0/'' @ formatInt i) = Inr (0, 0, word_of_int i)
         \<and> uint (word_of_int i :: int32) = i mod 2 ^ 32)
   \<and> Atoi ''4294967296'' = Inr 4294967296
   \<and> expandRange ''0/0/4294967296'' = Inr (0, 0, 0)
   \<and> expandRange ''0/0/4294967296'' \<noteq> Inr (- 1, - 1, - 1)
   \<and> Atoi ''4294967301'' = Inr 4294967301
   \<and> expandRange ''7/9/4294967301'' = Inr (7, 9, 5)"
proof -
  have 1: "(\<exists>mn mx. expandRange s = Inr (mn, mx, ucast n))
         \<and> uint (ucast n :: int32) = uint n mod 2 ^ 32"
    if "Split s CHR ''/'' = f0 # f1 # f2 # fs" "Atoi f2 = Inr n"
    using that by (simp add: expandRange_def index_def uint_int32_of_int split: sum.splits)
  have 2: "Atoi (formatInt i) = Inr (word_of_int i)
         \<and> expandRange (''0/0/'' @ formatInt i) = Inr (0, 0, word_of_int i)
         \<and> uint (word_of_int i :: int32) = i mod 2 ^ 32"
    if "2 ^ 31 \<le> i" "i < 2 ^ 63"
  proof -
    have "ParseInt (formatInt i) = Inr i"
      using that by (intro ParseInt_formatInt) simp_all
    then have a: "Atoi (formatInt i) = Inr (word_of_int i)" by (simp add: Atoi_def)
    have "Split (''0'' @ [CHR ''/''] @ ''0'' @ [CHR ''/''] @ formatInt i) CHR ''/''
        = [''0'', ''0'', formatInt i]"
      by (rule Split_three) (simp_all add: slash_notin_formatInt)
    then have sp: "Split (''0/0/'' @ formatInt i) CHR ''/'' = [''0'', ''0'', formatInt i]"
      by simp
    have "expandRange (''0/0/'' @ formatInt i) = Inr (0, 0, word_of_int i)"
      unfolding expandRange_def Let_def sp
      by (simp add: index_def a Atoi_zero ucast_word_of_int_64_32)
    with a show ?thesis by (simp add: uint_int32_of_word_of_int)
  qed
  have 3: "Atoi ''4294967296'' = Inr 4294967296" "Atoi ''4294967301'' = Inr 4294967301"
    by (simp_all add: Atoi_def ParseInt_def ParseUint_def digitVal_def intSize_def maxUint64_def)
  have 4: "expandRange ''0/0/4294967296'' = Inr (0, 0, 0)"
    "expandRange ''7/9/4294967301'' = Inr (7, 9, 5)"
    by (simp_all add: codec_eval)
  from 1 2 3 4 show ?thesis by simp
qed

theorem expandRange_wide_count_truncated_witness:
  "Split ''7/9/4294967301'' CHR ''/'' = [''7'', ''9'', ''4294967301'']
   \<and> Atoi ''4294967301'' = Inr 4294967301
   \<and> (\<exists>mn mx. expandRange ''7/9/4294967301'' = Inr (mn, mx, 5))
   \<and> uint (ucast (4294967301 :: go_int) :: int32) = 5
   \<and> (2 :: int) ^ 31 \<le> 4294967301 \<and> (4294967301 :: int) < 2 ^ 63
   \<and> formatInt 4294967301 = ''4294967301''
   \<and> expandRange ''0/0/4294967301'' = Inr (0, 0, 5)"
proof -
  have sp: "Split ''7/9/4294967301'' CHR ''/'' = ''7'' # ''9'' # ''4294967301'' # []" by simp
  have at: "Atoi ''4294967301'' = Inr 4294967301"
    by (simp add: Atoi_def ParseInt_def ParseUint_def digitVal_def intSize_def maxUint64_def)
  have r: "(2 :: int) ^ 31 \<le> 4294967301" "(4294967301 :: int) < 2 ^ 63" by simp_all
  have f: "formatInt 4294967301 = ''4294967301''"
    by (simp add: formatInt_def natDigits.simps digitChar_def)
  have c5: "(ucast (4294967301 :: go_int) :: int32) = 5" by simp
  have w5: "(word_of_int 4294967301 :: int32) = 5" by simp
  note a = expandRange_wide_count_truncated [where s = "''7/9/4294967301''"
      and ?f0.0 = "''7''" and ?f1.0 = "''9''" and ?f2.0 = "''4294967301''" and fs = "[]"
      and n = 4294967301, THEN conjunct1, rule_format, OF conjI [OF sp at]]
  note b = expandRange_wide_count_truncated [where i = 4294967301,
      THEN conjunct2, THEN conjunct1, rule_format, OF conjI [OF r]]
  from a [unfolded c5] b [unfolded w5 f] sp at r f c5 show ?thesis by simp
qed

section \<open>The batch operations: properties\<close>

subsection \<open>Evaluation on concrete markers and pools\<close>

lemma expandRange_1_5_2: "expandRange ''1/5/2'' = Inr (1, 5, 2)"
  by (simp add: codec_eval)

lemma expandRange_minus5: "expandRange ''-5/-5/-5'' = Inr (- 5, - 5, - 5)"
  by (simp add: codec_eval)

lemma expandRange_unparsable: "expandRange ''x/y/z'' = Inr (- 1, - 1, - 1)"
  by (simp add: codec_eval)

lemma Atoi_minus5: "Atoi ''-5'' = Inr (- 5)"
  by (simp add: Atoi_def ParseInt_def ParseUint_def digitVal_def intSize_def maxUint64_def)

lemma two_not_negative: "\<not> (2 :: int32) <s 0"
  by (simp add: word_sless_alt)

lemma minus1_negative: "(- 1 :: int32) <s 0"
  by (simp add: word_sless_alt)

lemma minus5_negative: "(- 5 :: int32) <s 0"
  by (simp add: word_sless_alt)

lemma minus5_count: "(ucast (- 5 :: go_int) :: int32) <s 0"
  by (simp add: word_sless_alt)

lemma flatRange_1_5_2: "flatRange 1 5 2 = ''1/5/2''"
  by (simp add: flatRange_def formatInt_def natDigits.simps digitChar_def)

lemmas stub_eval = stubProvider_def pool_def flatRange_1_5_2

subsection \<open>The recording provider\<close>

lemma recording_UpdateNodePoolSize:
  "UpdateNodePoolSize (recording p) np sz (s, calls) =
     (fst (UpdateNodePoolSize p np sz s),
      (snd (UpdateNodePoolSize p np sz s), calls @ [UpdateNodePoolSizeCall np sz]))"
  by (simp add: recording_def split: prod.splits)

lemma recording_CreateOrUpdateTags:
  "CreateOrUpdateTags (recording p) np ow tags (s, calls) =
     (fst (CreateOrUpdateTags p np ow tags s),
      (snd (CreateOrUpdateTags p np ow tags s), calls @ [CreateOrUpdateTagsCall np ow tags]))"
  by (simp add: recording_def split: prod.splits)

lemma recording_DeleteTags:
  "DeleteTags (recording p) np keys (s, calls) =
     (fst (DeleteTags p np keys s),
      (snd (DeleteTags p np keys s), calls @ [DeleteTagsCall np keys]))"
  by (simp add: recording_def split: prod.splits)

lemmas recording_simps =
  recording_UpdateNodePoolSize recording_CreateOrUpdateTags recording_DeleteTags

subsection \<open>The loops\<close>

text \<open>The test for an empty list at the head of each operation returns what the loop would.\<close>

lemma SetNodePoolSizes_is_loop:
  "SetNodePoolSizes p nodePools sz s = SetNodePoolSizes_loop p nodePools sz s"
  by (cases nodePools) (simp_all add: SetNodePoolSizes_def)

lemma ResetNodePoolSizes_is_loop:
  "ResetNodePoolSizes p nodePools s = ResetNodePoolSizes_loop p nodePools s"
  by (cases nodePools) (simp_all add: ResetNodePoolSizes_def)

text \<open>
  Both loops are sequential: a list in two parts is processed as its first part, and, only
  if that returned \<open>nil\<close>, its second part from the state reached.
\<close>

lemma Set_loop_append:
  "SetNodePoolSizes_loop p (xs @ ys) sz s =
     (case SetNodePoolSizes_loop p xs sz s of
        (Some e, s') \<Rightarrow> (Some e, s')
      | (None, s') \<Rightarrow> SetNodePoolSizes_loop p ys sz s')"
  by (induction xs arbitrary: s) (auto simp: Let_def split: prod.splits option.splits)

lemma Reset_loop_append:
  "ResetNodePoolSizes_loop p (xs @ ys) s =
     (case ResetNodePoolSizes_loop p xs s of
        (Returned None, s') \<Rightarrow> ResetNodePoolSizes_loop p ys s'
      | (out, s') \<Rightarrow> (out, s'))"
  by (induction xs arbitrary: s)
     (auto simp: Let_def split: prod.splits option.splits sum.splits Outcome.splits)

text \<open>The calls recorded by a run of \<open>SetNodePoolSizes\<close> that returns \<open>nil\<close>.\<close>

lemma Set_trace_ok:
  "SetNodePoolSizes_loop (recording p) nps sz (s, c0) = (None, (s', calls)) \<Longrightarrow>
   calls = c0 @ concat (map (SetNodePoolSizes_calls sz) nps)"
proof (induction nps arbitrary: s c0)
  case Nil
  then show ?case by simp
next
  case (Cons a nps)
  obtain ru su where u: "UpdateNodePoolSize p a sz s = (ru, su)"
    by (cases "UpdateNodePoolSize p a sz s")
  obtain rt st where t: "CreateOrUpdateTags p a False
      [EKSNodeGroupPreviousKey \<mapsto> flatRange (MinNodes a) (MaxNodes a) (NodeCount a)] su
      = (rt, st)"
    by (cases "CreateOrUpdateTags p a False
      [EKSNodeGroupPreviousKey \<mapsto> flatRange (MinNodes a) (MaxNodes a) (NodeCount a)] su")
  from Cons.prems u t have ru: "ru = None" and rt: "rt = None"
    by (auto simp: recording_simps split: option.splits)
  from Cons.prems u t ru rt
  have "SetNodePoolSizes_loop (recording p) nps sz (st, c0 @ SetNodePoolSizes_calls sz a)
      = (None, (s', calls))"
    by (simp add: recording_simps SetNodePoolSizes_calls_def)
  from Cons.IH [OF this] show ?case by simp
qed

text \<open>The calls recorded by a run of \<open>SetNodePoolSizes\<close> that returns an error.\<close>

lemma Set_trace_err:
  "SetNodePoolSizes_loop (recording p) nps sz (s, c0) = (Some e, (s', calls)) \<Longrightarrow>
   \<exists>done np rest. nps = done @ np # rest \<and>
     (calls = c0 @ concat (map (SetNodePoolSizes_calls sz) done) @ [UpdateNodePoolSizeCall np sz]
        \<and> (\<exists>s1. UpdateNodePoolSize p np sz s1 = (Some e, s'))
      \<or> calls = c0 @ concat (map (SetNodePoolSizes_calls sz) done) @ SetNodePoolSizes_calls sz np
        \<and> (\<exists>s1 s2. UpdateNodePoolSize p np sz s1 = (None, s2)
              \<and> CreateOrUpdateTags p np False
                   [EKSNodeGroupPreviousKey \<mapsto>
                      flatRange (MinNodes np) (MaxNodes np) (NodeCount np)] s2 = (Some e, s')))"
proof (induction nps arbitrary: s c0)
  case Nil
  then show ?case by simp
next
  case (Cons a nps)
  obtain ru su where u: "UpdateNodePoolSize p a sz s = (ru, su)"
    by (cases "UpdateNodePoolSize p a sz s")
  obtain rt st where t: "CreateOrUpdateTags p a False
      [EKSNodeGroupPreviousKey \<mapsto> flatRange (MinNodes a) (MaxNodes a) (NodeCount a)] su
      = (rt, st)"
    by (cases "CreateOrUpdateTags p a False
      [EKSNodeGroupPreviousKey \<mapsto> flatRange (MinNodes a) (MaxNodes a) (NodeCount a)] su")
  show ?case
  proof (cases ru)
    case (Some e1)
    with Cons.prems u have "e1 = e" "su = s'" "calls = c0 @ [UpdateNodePoolSizeCall a sz]"
      by (simp_all add: recording_simps)
    with u Some have "a # nps = [] @ a # nps \<and>
        calls = c0 @ concat (map (SetNodePoolSizes_calls sz) []) @ [UpdateNodePoolSizeCall a sz]
        \<and> (\<exists>s1. UpdateNodePoolSize p a sz s1 = (Some e, s'))"
      by auto
    then show ?thesis by blast
  next
    case None
    note ru = None
    show ?thesis
    proof (cases rt)
      case (Some e1)
      with Cons.prems u t ru have "e1 = e" "st = s'"
          "calls = c0 @ SetNodePoolSizes_calls sz a"
        by (simp_all add: recording_simps SetNodePoolSizes_calls_def)
      with u t ru Some have "a # nps = [] @ a # nps \<and>
        calls = c0 @ concat (map (SetNodePoolSizes_calls sz) []) @ SetNodePoolSizes_calls sz a
        \<and> (\<exists>s1 s2. UpdateNodePoolSize p a sz s1 = (None, s2)
              \<and> CreateOrUpdateTags p a False
                   [EKSNodeGroupPreviousKey \<mapsto>
                      flatRange (MinNodes a) (MaxNodes a) (NodeCount a)] s2 = (Some e, s'))"
        by auto
      then show ?thesis by blast
    next
      case None
      with Cons.prems u t ru
      have "SetNodePoolSizes_loop (recording p) nps sz (st, c0 @ SetNodePoolSizes_calls sz a)
          = (Some e, (s', calls))"
        by (simp add: recording_simps SetNodePoolSizes_calls_def)
      from Cons.IH [OF this] obtain dn np rest where
        nps: "nps = dn @ np # rest" and
        d: "calls = (c0 @ SetNodePoolSizes_calls sz a)
              @ concat (map (SetNodePoolSizes_calls sz) dn) @ [UpdateNodePoolSizeCall np sz]
            \<and> (\<exists>s1. UpdateNodePoolSize p np sz s1 = (Some e, s'))
          \<or> calls = (c0 @ SetNodePoolSizes_calls sz a)
              @ concat (map (SetNodePoolSizes_calls sz) dn) @ SetNodePoolSizes_calls sz np
            \<and> (\<exists>s1 s2. UpdateNodePoolSize p np sz s1 = (None, s2)
              \<and> CreateOrUpdateTags p np False
                   [EKSNodeGroupPreviousKey \<mapsto>
                      flatRange (MinNodes np) (MaxNodes np) (NodeCount np)] s2 = (Some e, s'))"
        by blast
      have "a # nps = (a # dn) @ np # rest" using nps by simp
      moreover from d have
        "calls = c0 @ concat (map (SetNodePoolSizes_calls sz) (a # dn))
              @ [UpdateNodePoolSizeCall np sz]
            \<and> (\<exists>s1. UpdateNodePoolSize p np sz s1 = (Some e, s'))
          \<or> calls = c0 @ concat (map (SetNodePoolSizes_calls sz) (a # dn))
              @ SetNodePoolSizes_calls sz np
            \<and> (\<exists>s1 s2. UpdateNodePoolSize p np sz s1 = (None, s2)
              \<and> CreateOrUpdateTags p np False
                   [EKSNodeGroupPreviousKey \<mapsto>
                      flatRange (MinNodes np) (MaxNodes np) (NodeCount np)] s2 = (Some e, s'))"
        by simp
      ultimately show ?thesis by blast
    qed
  qed
qed

subsection \<open>Claims about SetNodePoolSizes and ResetNodePoolSizes\<close>

text \<open>
  Claim C7: on an empty list of pools both \<open>SetNodePoolSizes\<close>, for any target size, and
  \<open>ResetNodePoolSizes\<close> return \<open>nil\<close>, leave the state of the cluster as it is and make
  no call to the cluster provider.
\<close>

theorem empty_batch_no_calls:
  "SetNodePoolSizes p [] sz s = (None, s)
   \<and> ResetNodePoolSizes p [] s = (Returned None, s)
   \<and> SetNodePoolSizes (recording p) [] sz (s, []) = (None, (s, []))
   \<and> ResetNodePoolSizes (recording p) [] (s, []) = (Returned None, (s, []))"
  by (simp add: SetNodePoolSizes_def ResetNodePoolSizes_def)

text \<open>
  Claim C4: \<open>SetNodePoolSizes\<close> goes through the pools in order and stops at the first
  failure. When the pools \<open>pre\<close> before \<open>np\<close> were processed without error and the resize
  of \<open>np\<close> fails, that error is returned and the resize of \<open>np\<close> is the last call made;
  when the resize succeeds and the write of the tag fails, that error is returned and the
  write is the last call made. In both cases the pools after \<open>np\<close> receive no call and
  nothing is undone. For pools \<open>[A, B, C]\<close> where the resize of \<open>B\<close> fails, the calls are
  exactly: resize \<open>A\<close>, tag \<open>A\<close>, resize \<open>B\<close>.
\<close>

theorem SetNodePoolSizes_aborts_on_first_failure:
  "(SetNodePoolSizes (recording p) pre sz (s, calls) = (None, (s1, calls1))
      \<and> UpdateNodePoolSize p np sz s1 = (Some e, s2)
    \<longrightarrow> SetNodePoolSizes (recording p) (pre @ np # rest) sz (s, calls)
          = (Some e, (s2, calls1 @ [UpdateNodePoolSizeCall np sz])))
   \<and> (SetNodePoolSizes (recording p) pre sz (s, calls) = (None, (s1, calls1))
      \<and> UpdateNodePoolSize p np sz s1 = (None, s2)
      \<and> CreateOrUpdateTags p np False
           [EKSNodeGroupPreviousKey \<mapsto> flatRange (MinNodes np) (MaxNodes np) (NodeCount np)] s2
          = (Some e, s3)
    \<longrightarrow> SetNodePoolSizes (recording p) (pre @ np # rest) sz (s, calls)
          = (Some e, (s3, calls1 @ [UpdateNodePoolSizeCall np sz,
               CreateOrUpdateTagsCall np False
                 [EKSNodeGroupPreviousKey \<mapsto>
                    flatRange (MinNodes np) (MaxNodes np) (NodeCount np)]])))
   \<and> (UpdateNodePoolSize p A sz t = (None, t1)
      \<and> CreateOrUpdateTags p A False
           [EKSNodeGroupPreviousKey \<mapsto> flatRange (MinNodes A) (MaxNodes A) (NodeCount A)] t1
          = (None, t2)
      \<and> UpdateNodePoolSize p B sz t2 = (Some e', t3)
    \<longrightarrow> SetNodePoolSizes (recording p) [A, B, C] sz (t, [])
          = (Some e', (t3, [UpdateNodePoolSizeCall A sz,
               CreateOrUpdateTagsCall A False
                 [EKSNodeGroupPreviousKey \<mapsto>
                    flatRange (MinNodes A) (MaxNodes A) (NodeCount A)],
               UpdateNodePoolSizeCall B sz])))"
  by (simp add: SetNodePoolSizes_is_loop Set_loop_append recording_simps)

theorem SetNodePoolSizes_aborts_on_first_failure_witness:
  "SetNodePoolSizes (recording (stubProvider ''B'' ''''))
       [pool ''A'' Map.empty, pool ''B'' Map.empty, pool ''C'' Map.empty] 0 (0, [])
     = (Some ''resize refused'',
        (3, [UpdateNodePoolSizeCall (pool ''A'' Map.empty) 0,
             CreateOrUpdateTagsCall (pool ''A'' Map.empty) False
               [EKSNodeGroupPreviousKey \<mapsto> ''1/5/2''],
             UpdateNodePoolSizeCall (pool ''B'' Map.empty) 0]))
   \<and> SetNodePoolSizes (recording (stubProvider '''' ''B''))
       [pool ''A'' Map.empty, pool ''B'' Map.empty, pool ''C'' Map.empty] 0 (0, [])
     = (Some ''tagging refused'',
        (4, [UpdateNodePoolSizeCall (pool ''A'' Map.empty) 0,
             CreateOrUpdateTagsCall (pool ''A'' Map.empty) False
               [EKSNodeGroupPreviousKey \<mapsto> ''1/5/2''],
             UpdateNodePoolSizeCall (pool ''B'' Map.empty) 0,
             CreateOrUpdateTagsCall (pool ''B'' Map.empty) False
               [EKSNodeGroupPreviousKey \<mapsto> ''1/5/2'']]))"
proof -
  let ?p = "stubProvider ''B'' '''' :: nat ClusterProvider"
  let ?q = "stubProvider '''' ''B'' :: nat ClusterProvider"
  let ?A = "pool ''A'' Map.empty" and ?B = "pool ''B'' Map.empty" and ?C = "pool ''C'' Map.empty"
  let ?m = "[EKSNodeGroupPreviousKey \<mapsto> ''1/5/2'']"
  let ?mB = "[EKSNodeGroupPreviousKey \<mapsto> flatRange (MinNodes ?B) (MaxNodes ?B) (NodeCount ?B)]"
  let ?mA = "[EKSNodeGroupPreviousKey \<mapsto> flatRange (MinNodes ?A) (MaxNodes ?A) (NodeCount ?A)]"
  have preP: "SetNodePoolSizes (recording ?p) [?A] 0 (0, [])
     = (None, (2, [UpdateNodePoolSizeCall ?A 0, CreateOrUpdateTagsCall ?A False ?m]))"
    by (simp add: SetNodePoolSizes_def recording_simps stub_eval)
  have preQ: "SetNodePoolSizes (recording ?q) [?A] 0 (0, [])
     = (None, (2, [UpdateNodePoolSizeCall ?A 0, CreateOrUpdateTagsCall ?A False ?m]))"
    by (simp add: SetNodePoolSizes_def recording_simps stub_eval)
  have uP: "UpdateNodePoolSize ?p ?B 0 2 = (Some ''resize refused'', 3)"
    by (simp add: stub_eval)
  have uQ: "UpdateNodePoolSize ?q ?B 0 2 = (None, 3)"
    by (simp add: stub_eval)
  have tQ: "CreateOrUpdateTags ?q ?B False ?mB 3 = (Some ''tagging refused'', 4)"
    by (simp add: stub_eval)
  have uA: "UpdateNodePoolSize ?p ?A 0 0 = (None, 1)"
    by (simp add: stub_eval)
  have tA: "CreateOrUpdateTags ?p ?A False ?mA 1 = (None, 2)"
    by (simp add: stub_eval)
  have fr: "?mB = ?m" "?mA = ?m"
    by (simp_all add: stub_eval)
  note a = SetNodePoolSizes_aborts_on_first_failure [where p = ?p and pre = "[?A]" and sz = 0
      and s = 0 and calls = "[]" and ?s1.0 = 2 and np = ?B and e = "''resize refused''"
      and ?s2.0 = 3 and rest = "[?C]", THEN conjunct1, rule_format, OF conjI [OF preP uP]]
  note b = SetNodePoolSizes_aborts_on_first_failure [where p = ?q and pre = "[?A]" and sz = 0
      and s = 0 and calls = "[]" and ?s1.0 = 2 and np = ?B and e = "''tagging refused''"
      and ?s2.0 = 3 and ?s3.0 = 4 and rest = "[?C]", THEN conjunct2, THEN conjunct1,
      rule_format, OF conjI [OF preQ conjI [OF uQ tQ]]]
  note c = SetNodePoolSizes_aborts_on_first_failure [where p = ?p and A = ?A and B = ?B
      and C = ?C and sz = 0 and t = 0 and ?t1.0 = 1 and ?t2.0 = 2 and e' = "''resize refused''"
      and ?t3.0 = 3, THEN conjunct2, THEN conjunct2, rule_format,
      OF conjI [OF uA conjI [OF tA uP]]]
  from a b c fr show ?thesis by simp
qed

text \<open>
  Claim C8: the calls \<open>SetNodePoolSizes\<close> makes are, pool after pool in the order of the
  list, the resize to the target size and then the write of the marker computed from that
  pool's min, max and count as the pool value has them, under the key
  \<open>cluster.turndown.previous\<close> with \<open>overwrite = false\<close> (\<open>SetNodePoolSizes_calls\<close>). A
  run that returns \<open>nil\<close> has made exactly these calls for every pool. A run that returns
  an error has made them for the pools before some pool \<open>np\<close>, and then either only the
  resize of \<open>np\<close>, which failed with that error, so that no tag is written for \<open>np\<close>, or
  the resize of \<open>np\<close>, which succeeded, and the write of its tag, which failed with that
  error.
\<close>

theorem SetNodePoolSizes_call_order:
  assumes "SetNodePoolSizes (recording p) nodePools sz (s, calls0) = (r, (s', calls))"
  shows "(r = None \<longrightarrow>
            calls = calls0 @ concat (map (SetNodePoolSizes_calls sz) nodePools))
   \<and> (\<forall>e. r = Some e \<longrightarrow>
        (\<exists>done np rest. nodePools = done @ np # rest \<and>
           (calls = calls0 @ concat (map (SetNodePoolSizes_calls sz) done)
                      @ [UpdateNodePoolSizeCall np sz]
              \<and> (\<exists>s1. UpdateNodePoolSize p np sz s1 = (Some e, s'))
            \<or> calls = calls0 @ concat (map (SetNodePoolSizes_calls sz) done)
                      @ SetNodePoolSizes_calls sz np
              \<and> (\<exists>s1 s2. UpdateNodePoolSize p np sz s1 = (None, s2)
                    \<and> CreateOrUpdateTags p np False
                         [EKSNodeGroupPreviousKey \<mapsto>
                            flatRange (MinNodes np) (MaxNodes np) (NodeCount np)] s2
                        = (Some e, s')))))"
proof (intro conjI allI impI)
  assume "r = None"
  with assms show "calls = calls0 @ concat (map (SetNodePoolSizes_calls sz) nodePools)"
    by (simp add: SetNodePoolSizes_is_loop Set_trace_ok)
next
  fix e assume "r = Some e"
  with assms have "SetNodePoolSizes_loop (recording p) nodePools sz (s, calls0)
      = (Some e, (s', calls))"
    by (simp add: SetNodePoolSizes_is_loop)
  then show "\<exists>done np rest. nodePools = done @ np # rest \<and>
           (calls = calls0 @ concat (map (SetNodePoolSizes_calls sz) done)
                      @ [UpdateNodePoolSizeCall np sz]
              \<and> (\<exists>s1. UpdateNodePoolSize p np sz s1 = (Some e, s'))
            \<or> calls = calls0 @ concat (map (SetNodePoolSizes_calls sz) done)
                      @ SetNodePoolSizes_calls sz np
              \<and> (\<exists>s1 s2. UpdateNodePoolSize p np sz s1 = (None, s2)
                    \<and> CreateOrUpdateTags p np False
                         [EKSNodeGroupPreviousKey \<mapsto>
                            flatRange (MinNodes np) (MaxNodes np) (NodeCount np)] s2
                        = (Some e, s')))"
    by (rule Set_trace_err)
qed

theorem SetNodePoolSizes_call_order_witness:
  "SetNodePoolSizes (recording (stubProvider '''' ''''))
      [pool ''A'' Map.empty, pool ''B'' Map.empty] 0 (0, [])
     = (None, (4, [UpdateNodePoolSizeCall (pool ''A'' Map.empty) 0,
          CreateOrUpdateTagsCall (pool ''A'' Map.empty) False
            [EKSNodeGroupPreviousKey \<mapsto> ''1/5/2''],
          UpdateNodePoolSizeCall (pool ''B'' Map.empty) 0,
          CreateOrUpdateTagsCall (pool ''B'' Map.empty) False
            [EKSNodeGroupPreviousKey \<mapsto> ''1/5/2'']]))
   \<and> concat (map (SetNodePoolSizes_calls 0) [pool ''A'' Map.empty, pool ''B'' Map.empty])
     = [UpdateNodePoolSizeCall (pool ''A'' Map.empty) 0,
          CreateOrUpdateTagsCall (pool ''A'' Map.empty) False
            [EKSNodeGroupPreviousKey \<mapsto> ''1/5/2''],
          UpdateNodePoolSizeCall (pool ''B'' Map.empty) 0,
          CreateOrUpdateTagsCall (pool ''B'' Map.empty) False
            [EKSNodeGroupPreviousKey \<mapsto> ''1/5/2'']]
   \<and> SetNodePoolSizes (recording (stubProvider ''B'' ''''))
      [pool ''A'' Map.empty, pool ''B'' Map.empty] 0 (0, [])
     = (Some ''resize refused'', (3, [UpdateNodePoolSizeCall (pool ''A'' Map.empty) 0,
          CreateOrUpdateTagsCall (pool ''A'' Map.empty) False
            [EKSNodeGroupPreviousKey \<mapsto> ''1/5/2''],
          UpdateNodePoolSizeCall (pool ''B'' Map.empty) 0]))"
proof -
  let ?p = "stubProvider '''' '''' :: nat ClusterProvider"
  let ?q = "stubProvider ''B'' '''' :: nat ClusterProvider"
  let ?A = "pool ''A'' Map.empty" and ?B = "pool ''B'' Map.empty"
  let ?m = "[EKSNodeGroupPreviousKey \<mapsto> ''1/5/2'']"
  have run: "SetNodePoolSizes (recording ?p) [?A, ?B] 0 (0, [])
     = (None, (4, [UpdateNodePoolSizeCall ?A 0, CreateOrUpdateTagsCall ?A False ?m,
          UpdateNodePoolSizeCall ?B 0, CreateOrUpdateTagsCall ?B False ?m]))"
    by (simp add: SetNodePoolSizes_def recording_simps stub_eval)
  have run2: "SetNodePoolSizes (recording ?q) [?A, ?B] 0 (0, [])
     = (Some ''resize refused'', (3, [UpdateNodePoolSizeCall ?A 0,
          CreateOrUpdateTagsCall ?A False ?m, UpdateNodePoolSizeCall ?B 0]))"
    by (simp add: SetNodePoolSizes_def recording_simps stub_eval)
  have sched: "concat (map (SetNodePoolSizes_calls 0) [?A, ?B])
     = [UpdateNodePoolSizeCall ?A 0, CreateOrUpdateTagsCall ?A False ?m,
          UpdateNodePoolSizeCall ?B 0, CreateOrUpdateTagsCall ?B False ?m]"
    by (simp add: SetNodePoolSizes_calls_def stub_eval)
  note a = SetNodePoolSizes_call_order [OF run, THEN conjunct1, rule_format, OF refl]
  note b = SetNodePoolSizes_call_order [OF run2, THEN conjunct2, rule_format, OF refl]
  from a b run run2 sched show ?thesis by simp
qed

text \<open>
  Claim C5: \<open>ResetNodePoolSizes\<close> passes over a pool whose tags lack the key
  \<open>cluster.turndown.previous\<close>, and over a pool whose marker decodes to a negative count:
  it makes no call for that pool, leaves the state of the cluster as it is, and goes on
  with the rest of the list. A pool whose marker decodes to a count that is not negative
  is resized to that count and then has the marker tag deleted, and the loop goes on. For
  \<open>[A, B]\<close> with no marker on \<open>A\<close> and the marker \<open>"1/5/2"\<close> on \<open>B\<close>, and a provider
  that accepts both calls, the calls are exactly: resize \<open>B\<close> to 2, delete the marker of
  \<open>B\<close>; and \<open>nil\<close> is returned.
\<close>

theorem ResetNodePoolSizes_skips_unmarked_pools:
  "(Tags np EKSNodeGroupPreviousKey = None
    \<longrightarrow> ResetNodePoolSizes (recording p) (np # rest) (s, calls)
          = ResetNodePoolSizes (recording p) rest (s, calls))
   \<and> (Tags np EKSNodeGroupPreviousKey = Some marker
      \<and> expandRange marker = Inr (mn, mx, count) \<and> count <s 0
    \<longrightarrow> ResetNodePoolSizes (recording p) (np # rest) (s, calls)
          = ResetNodePoolSizes (recording p) rest (s, calls))
   \<and> (Tags np EKSNodeGroupPreviousKey = Some marker
      \<and> expandRange marker = Inr (mn, mx, count) \<and> \<not> count <s 0
      \<and> UpdateNodePoolSize p np count s = (None, s1)
      \<and> DeleteTags p np [EKSNodeGroupPreviousKey] s1 = (None, s2)
    \<longrightarrow> ResetNodePoolSizes (recording p) (np # rest) (s, calls)
          = ResetNodePoolSizes (recording p) rest
              (s2, calls @ [UpdateNodePoolSizeCall np count,
                            DeleteTagsCall np [EKSNodeGroupPreviousKey]]))
   \<and> (Tags A EKSNodeGroupPreviousKey = None
      \<and> Tags B EKSNodeGroupPreviousKey = Some ''1/5/2''
      \<and> UpdateNodePoolSize p B 2 t = (None, t1)
      \<and> DeleteTags p B [EKSNodeGroupPreviousKey] t1 = (None, t2)
    \<longrightarrow> ResetNodePoolSizes (recording p) [A, B] (t, [])
          = (Returned None, (t2, [UpdateNodePoolSizeCall B 2,
                                   DeleteTagsCall B [EKSNodeGroupPreviousKey]])))"
  by (simp add: ResetNodePoolSizes_is_loop recording_simps expandRange_1_5_2 two_not_negative)

theorem ResetNodePoolSizes_skips_unmarked_pools_witness:
  "Tags (pool ''A'' Map.empty) EKSNodeGroupPreviousKey = None
   \<and> Tags (pool ''B'' [EKSNodeGroupPreviousKey \<mapsto> ''1/5/2'']) EKSNodeGroupPreviousKey
       = Some ''1/5/2''
   \<and> expandRange ''1/5/2'' = Inr (1, 5, 2) \<and> \<not> (2 :: int32) <s 0
   \<and> UpdateNodePoolSize (stubProvider '''' '''')
        (pool ''B'' [EKSNodeGroupPreviousKey \<mapsto> ''1/5/2'']) 2 0 = (None, 1)
   \<and> DeleteTags (stubProvider '''' '''')
        (pool ''B'' [EKSNodeGroupPreviousKey \<mapsto> ''1/5/2'']) [EKSNodeGroupPreviousKey] 1
       = (None, 2)
   \<and> ResetNodePoolSizes (recording (stubProvider '''' ''''))
        [pool ''A'' Map.empty, pool ''B'' [EKSNodeGroupPreviousKey \<mapsto> ''1/5/2'']] (0, [])
       = (Returned None,
          (2, [UpdateNodePoolSizeCall (pool ''B'' [EKSNodeGroupPreviousKey \<mapsto> ''1/5/2'']) 2,
               DeleteTagsCall (pool ''B'' [EKSNodeGroupPreviousKey \<mapsto> ''1/5/2''])
                 [EKSNodeGroupPreviousKey]]))
   \<and> Tags (pool ''N'' [EKSNodeGroupPreviousKey \<mapsto> ''x/y/z'']) EKSNodeGroupPreviousKey
       = Some ''x/y/z''
   \<and> expandRange ''x/y/z'' = Inr (- 1, - 1, - 1) \<and> (- 1 :: int32) <s 0
   \<and> ResetNodePoolSizes (recording (stubProvider '''' ''''))
        [pool ''N'' [EKSNodeGroupPreviousKey \<mapsto> ''x/y/z'']] (0, [])
       = (Returned None, (0, []))"
proof -
  let ?p = "stubProvider '''' '''' :: nat ClusterProvider"
  let ?A = "pool ''A'' Map.empty"
  let ?B = "pool ''B'' [EKSNodeGroupPreviousKey \<mapsto> ''1/5/2'']"
  let ?N = "pool ''N'' [EKSNodeGroupPreviousKey \<mapsto> ''x/y/z'']"
  have tA: "Tags ?A EKSNodeGroupPreviousKey = None" by (simp add: pool_def)
  have tB: "Tags ?B EKSNodeGroupPreviousKey = Some ''1/5/2''" by (simp add: pool_def)
  have tN: "Tags ?N EKSNodeGroupPreviousKey = Some ''x/y/z''" by (simp add: pool_def)
  have u: "UpdateNodePoolSize ?p ?B 2 0 = (None, 1)" by (simp add: stubProvider_def pool_def)
  have d: "DeleteTags ?p ?B [EKSNodeGroupPreviousKey] 1 = (None, 2)"
    by (simp add: stubProvider_def pool_def)
  note un = ResetNodePoolSizes_skips_unmarked_pools [where p = ?p and np = ?A
      and rest = "[?B]" and s = 0 and calls = "[]", THEN conjunct1, rule_format, OF tA]
  note dn = ResetNodePoolSizes_skips_unmarked_pools [where p = ?p and np = ?B
      and marker = "''1/5/2''" and mn = 1 and mx = 5 and count = 2 and rest = "[]" and s = 0
      and calls = "[]" and ?s1.0 = 1 and ?s2.0 = 2,
      THEN conjunct2, THEN conjunct2, THEN conjunct1, rule_format,
      OF conjI [OF tB conjI [OF expandRange_1_5_2 conjI [OF two_not_negative conjI [OF u d]]]]]
  note ex = ResetNodePoolSizes_skips_unmarked_pools [where p = ?p and A = ?A and B = ?B
      and t = 0 and ?t1.0 = 1 and ?t2.0 = 2,
      THEN conjunct2, THEN conjunct2, THEN conjunct2, rule_format,
      OF conjI [OF tA conjI [OF tB conjI [OF u d]]]]
  note sk = ResetNodePoolSizes_skips_unmarked_pools [where p = ?p and np = ?N
      and marker = "''x/y/z''" and mn = "- 1" and mx = "- 1" and count = "- 1"
      and rest = "[]" and s = 0 and calls = "[]",
      THEN conjunct2, THEN conjunct1, rule_format,
      OF conjI [OF tN conjI [OF expandRange_unparsable minus1_negative]]]
  have e: "ResetNodePoolSizes (recording ?p) [] (0, []) = (Returned None, (0, []))"
    by (simp add: ResetNodePoolSizes_def)
  from tA tB tN u d un dn ex sk e expandRange_1_5_2 two_not_negative expandRange_unparsable
    minus1_negative
  show ?thesis by simp
qed

text \<open>
  Claim C6: when \<open>ResetNodePoolSizes\<close> reaches a pool \<open>np\<close> whose marker decodes to a
  count that is not negative, the pools \<open>pre\<close> before it having been processed without
  error, and the resize of \<open>np\<close> fails, that error is returned, the resize is the last
  call made (the marker tag of \<open>np\<close> is not deleted) and the pools after \<open>np\<close> receive no
  call; when the resize succeeds and the deletion of the tag fails, that error is returned
  and the deletion is the last call made. For a pool with the marker \<open>"1/5/2"\<close> whose
  resize fails, the only call is the resize to 2.
\<close>

theorem ResetNodePoolSizes_aborts_on_provider_failure:
  "(ResetNodePoolSizes (recording p) pre (s, calls) = (Returned None, (s1, calls1))
      \<and> Tags np EKSNodeGroupPreviousKey = Some marker
      \<and> expandRange marker = Inr (mn, mx, count) \<and> \<not> count <s 0
      \<and> UpdateNodePoolSize p np count s1 = (Some e, s2)
    \<longrightarrow> ResetNodePoolSizes (recording p) (pre @ np # rest) (s, calls)
          = (Returned (Some e), (s2, calls1 @ [UpdateNodePoolSizeCall np count])))
   \<and> (ResetNodePoolSizes (recording p) pre (s, calls) = (Returned None, (s1, calls1))
      \<and> Tags np EKSNodeGroupPreviousKey = Some marker
      \<and> expandRange marker = Inr (mn, mx, count) \<and> \<not> count <s 0
      \<and> UpdateNodePoolSize p np count s1 = (None, s2)
      \<and> DeleteTags p np [EKSNodeGroupPreviousKey] s2 = (Some e, s3)
    \<longrightarrow> ResetNodePoolSizes (recording p) (pre @ np # rest) (s, calls)
          = (Returned (Some e), (s3, calls1 @ [UpdateNodePoolSizeCall np count,
               DeleteTagsCall np [EKSNodeGroupPreviousKey]])))
   \<and> (Tags B EKSNodeGroupPreviousKey = Some ''1/5/2''
      \<and> UpdateNodePoolSize p B 2 t = (Some e', t1)
    \<longrightarrow> ResetNodePoolSizes (recording p) (B # rest') (t, [])
          = (Returned (Some e'), (t1, [UpdateNodePoolSizeCall B 2])))"
  by (simp add: ResetNodePoolSizes_is_loop Reset_loop_append recording_simps expandRange_1_5_2
      two_not_negative)

theorem ResetNodePoolSizes_aborts_on_provider_failure_witness:
  "ResetNodePoolSizes (recording (stubProvider ''B'' ''''))
        [pool ''A'' Map.empty, pool ''B'' [EKSNodeGroupPreviousKey \<mapsto> ''1/5/2''],
         pool ''C'' [EKSNodeGroupPreviousKey \<mapsto> ''1/5/2'']] (0, [])
       = (Returned (Some ''resize refused''),
          (1, [UpdateNodePoolSizeCall (pool ''B'' [EKSNodeGroupPreviousKey \<mapsto> ''1/5/2'']) 2]))
   \<and> ResetNodePoolSizes (recording (stubProvider '''' ''B''))
        [pool ''A'' Map.empty, pool ''B'' [EKSNodeGroupPreviousKey \<mapsto> ''1/5/2''],
         pool ''C'' [EKSNodeGroupPreviousKey \<mapsto> ''1/5/2'']] (0, [])
       = (Returned (Some ''untagging refused''),
          (2, [UpdateNodePoolSizeCall (pool ''B'' [EKSNodeGroupPreviousKey \<mapsto> ''1/5/2'']) 2,
               DeleteTagsCall (pool ''B'' [EKSNodeGroupPreviousKey \<mapsto> ''1/5/2''])
                 [EKSNodeGroupPreviousKey]]))
   \<and> ResetNodePoolSizes (recording (stubProvider ''B'' ''''))
        [pool ''B'' [EKSNodeGroupPreviousKey \<mapsto> ''1/5/2''],
         pool ''C'' [EKSNodeGroupPreviousKey \<mapsto> ''1/5/2'']] (0, [])
       = (Returned (Some ''resize refused''),
          (1, [UpdateNodePoolSizeCall (pool ''B'' [EKSNodeGroupPreviousKey \<mapsto> ''1/5/2'']) 2]))"
proof -
  let ?p = "stubProvider ''B'' '''' :: nat ClusterProvider"
  let ?q = "stubProvider '''' ''B'' :: nat ClusterProvider"
  let ?A = "pool ''A'' Map.empty"
  let ?B = "pool ''B'' [EKSNodeGroupPreviousKey \<mapsto> ''1/5/2'']"
  let ?C = "pool ''C'' [EKSNodeGroupPreviousKey \<mapsto> ''1/5/2'']"
  have tB: "Tags ?B EKSNodeGroupPreviousKey = Some ''1/5/2''" by (simp add: pool_def)
  have preP: "ResetNodePoolSizes (recording ?p) [?A] (0, []) = (Returned None, (0, []))"
    by (simp add: ResetNodePoolSizes_def pool_def)
  have preQ: "ResetNodePoolSizes (recording ?q) [?A] (0, []) = (Returned None, (0, []))"
    by (simp add: ResetNodePoolSizes_def pool_def)
  have uP: "UpdateNodePoolSize ?p ?B 2 0 = (Some ''resize refused'', 1)"
    by (simp add: stubProvider_def pool_def)
  have uQ: "UpdateNodePoolSize ?q ?B 2 0 = (None, 1)"
    by (simp add: stubProvider_def pool_def)
  have dQ: "DeleteTags ?q ?B [EKSNodeGroupPreviousKey] 1 = (Some ''untagging refused'', 2)"
    by (simp add: stubProvider_def pool_def)
  note a = ResetNodePoolSizes_aborts_on_provider_failure [where p = ?p and pre = "[?A]"
      and s = 0 and calls = "[]" and ?s1.0 = 0 and ?calls1.0 = "[]" and np = ?B
      and marker = "''1/5/2''" and mn = 1 and mx = 5 and count = 2
      and e = "''resize refused''" and ?s2.0 = 1 and rest = "[?C]",
      THEN conjunct1, rule_format,
      OF conjI [OF preP conjI [OF tB conjI [OF expandRange_1_5_2
        conjI [OF two_not_negative uP]]]]]
  note b = ResetNodePoolSizes_aborts_on_provider_failure [where p = ?q and pre = "[?A]"
      and s = 0 and calls = "[]" and ?s1.0 = 0 and ?calls1.0 = "[]" and np = ?B
      and marker = "''1/5/2''" and mn = 1 and mx = 5 and count = 2
      and e = "''untagging refused''" and ?s2.0 = 1 and ?s3.0 = 2 and rest = "[?C]",
      THEN conjunct2, THEN conjunct1, rule_format,
      OF conjI [OF preQ conjI [OF tB conjI [OF expandRange_1_5_2
        conjI [OF two_not_negative conjI [OF uQ dQ]]]]]]
  note c = ResetNodePoolSizes_aborts_on_provider_failure [where p = ?p and B = ?B
      and t = 0 and e' = "''resize refused''" and ?t1.0 = 1 and rest' = "[?C]",
      THEN conjunct2, THEN conjunct2, rule_format, OF conjI [OF tB uP]]
  from a b c show ?thesis by simp
qed

text \<open>
  Claim C10: \<open>ResetNodePoolSizes\<close> passes over every pool whose marker decodes to a
  negative count also when every field of the marker parsed: the test is \<open>count < 0\<close> on
  the decoded count, whatever produced it. So a marker with at least three fields whose
  count field parses to a number that is negative as an \<open>int32\<close>, and the marker that
  \<open>flatRange\<close> writes for a negative count, and \<open>"-5/-5/-5"\<close>, which decodes to
  \<open>(-5, -5, -5)\<close>, are passed over: no call is made for the pool, its marker stays, and
  the loop goes on with the rest of the list.
\<close>

theorem ResetNodePoolSizes_skips_negative_count:
  "(Tags np EKSNodeGroupPreviousKey = Some marker
      \<and> Split marker CHR ''/'' = f0 # f1 # f2 # fs
      \<and> Atoi f2 = Inr n \<and> (ucast n :: int32) <s 0
    \<longrightarrow> ResetNodePoolSizes (recording p) (np # rest) (s, calls)
          = ResetNodePoolSizes (recording p) rest (s, calls))
   \<and> (Tags np EKSNodeGroupPreviousKey = Some (flatRange mn mx count) \<and> count <s 0
    \<longrightarrow> ResetNodePoolSizes (recording p) (np # rest) (s, calls)
          = ResetNodePoolSizes (recording p) rest (s, calls))
   \<and> expandRange ''-5/-5/-5'' = Inr (- 5, - 5, - 5)
   \<and> (Tags B EKSNodeGroupPreviousKey = Some ''-5/-5/-5''
    \<longrightarrow> ResetNodePoolSizes (recording p) (B # rest) (s, calls)
          = ResetNodePoolSizes (recording p) rest (s, calls))"
proof -
  have 1: "ResetNodePoolSizes (recording p) (np # rest) (s, calls)
          = ResetNodePoolSizes (recording p) rest (s, calls)"
    if "Tags np EKSNodeGroupPreviousKey = Some marker"
      "Split marker CHR ''/'' = f0 # f1 # f2 # fs" "Atoi f2 = Inr n" "(ucast n :: int32) <s 0"
  proof -
    have "\<exists>a b. expandRange marker = Inr (a, b, ucast n)"
      using that by (simp add: expandRange_def index_def split: sum.splits)
    then obtain a b where "expandRange marker = Inr (a, b, ucast n)" by blast
    with that show ?thesis by (simp add: ResetNodePoolSizes_is_loop)
  qed
  have 2: "ResetNodePoolSizes (recording p) (np # rest) (s, calls)
          = ResetNodePoolSizes (recording p) rest (s, calls)"
    if "Tags np EKSNodeGroupPreviousKey = Some (flatRange mn mx count)" "count <s 0"
    using that by (simp add: ResetNodePoolSizes_is_loop decode_encode)
  have 3: "ResetNodePoolSizes (recording p) (B # rest) (s, calls)
          = ResetNodePoolSizes (recording p) rest (s, calls)"
    if "Tags B EKSNodeGroupPreviousKey = Some ''-5/-5/-5''"
    using that by (simp add: ResetNodePoolSizes_is_loop expandRange_minus5 minus5_negative)
  from 1 2 3 expandRange_minus5 show ?thesis by blast
qed

theorem ResetNodePoolSizes_skips_negative_count_witness:
  "Tags (pool ''N'' [EKSNodeGroupPreviousKey \<mapsto> ''-5/-5/-5'']) EKSNodeGroupPreviousKey
       = Some ''-5/-5/-5''
   \<and> Split ''-5/-5/-5'' CHR ''/'' = [''-5'', ''-5'', ''-5'']
   \<and> Atoi ''-5'' = Inr (- 5) \<and> (ucast (- 5 :: go_int) :: int32) <s 0
   \<and> ResetNodePoolSizes (recording (stubProvider '''' ''''))
        [pool ''N'' [EKSNodeGroupPreviousKey \<mapsto> ''-5/-5/-5'']] (0, [])
       = (Returned None, (0, []))"
proof -
  let ?p = "stubProvider '''' '''' :: nat ClusterProvider"
  let ?N = "pool ''N'' [EKSNodeGroupPreviousKey \<mapsto> ''-5/-5/-5'']"
  have tN: "Tags ?N EKSNodeGroupPreviousKey = Some ''-5/-5/-5''" by (simp add: pool_def)
  have sp: "Split ''-5/-5/-5'' CHR ''/'' = ''-5'' # ''-5'' # ''-5'' # []" by simp
  note a = ResetNodePoolSizes_skips_negative_count [where p = ?p and np = ?N
      and marker = "''-5/-5/-5''" and ?f0.0 = "''-5''" and ?f1.0 = "''-5''"
      and ?f2.0 = "''-5''" and fs = "[]" and n = "- 5" and rest = "[]" and s = 0
      and calls = "[]",
      THEN conjunct1, rule_format,
      OF conjI [OF tN conjI [OF sp conjI [OF Atoi_minus5 minus5_count]]]]
  note b = ResetNodePoolSizes_skips_negative_count [where p = ?p and B = ?N
      and rest = "[]" and s = 0 and calls = "[]",
      THEN conjunct2, THEN conjunct2, THEN conjunct2, rule_format, OF tN]
  have e: "ResetNodePoolSizes (recording ?p) [] (0, []) = (Returned None, (0, []))"
    by (simp add: ResetNodePoolSizes_def)
  from a b e tN sp Atoi_minus5 minus5_count show ?thesis by simp
qed

end
